theory Spec2Isabelle
  imports Complex_Main
begin

section \<open>Python values and exceptions\<close>

text \<open>
  The activities of \<^verbatim>\<open>temporal_research_workflows_v2.py\<close> and
  \<^verbatim>\<open>bleeding_edge_research_final.py\<close> work on untyped dictionaries
  (\<^verbatim>\<open>Dict[str, Any]\<close>).  A Python value is modelled by \<open>pyval\<close>; a dictionary
  keeps its entries in insertion order, as an association list.  The instances of the
  pydantic models of \<^verbatim>\<open>deep_research_agent.py\<close> are dictionaries from field
  names to values.  A float is kept as the exact quotient it was computed from.  A
  character of a string is a code point below 256; text with other characters is
  outside the model.
\<close>

datatype pyval =
    PNone
  | PStr string
  | PInt int
  | PFloat rat
  | PList "pyval list"
  | PDict "(string \<times> pyval) list"

datatype py_error =
    KeyError string
  | TypeError
  | AttributeError string
  | ExceptionGroup "py_error list"
  | ActivityError py_error
  | ChildWorkflowError py_error
  | CancelledError
  | InvalidStateError
  | ExternalError string

text \<open>Sequencing of computations that may raise: the first exception ends the run.\<close>

definition bnd :: "py_error + 'a \<Rightarrow> ('a \<Rightarrow> py_error + 'b) \<Rightarrow> py_error + 'b" where
  "bnd m f = (case m of Inl e \<Rightarrow> Inl e | Inr x \<Rightarrow> f x)"

fun map_err :: "('a \<Rightarrow> py_error + 'b) \<Rightarrow> 'a list \<Rightarrow> py_error + 'b list" where
  "map_err f [] = Inr []"
| "map_err f (x # xs) =
     (case f x of
        Inl e \<Rightarrow> Inl e
      | Inr y \<Rightarrow> (case map_err f xs of Inl e \<Rightarrow> Inl e | Inr ys \<Rightarrow> Inr (y # ys)))"

text \<open>\<^verbatim>\<open>v[k]\<close> with a string key: only a dictionary accepts it.\<close>

fun subscript :: "pyval \<Rightarrow> string \<Rightarrow> py_error + pyval" where
  "subscript (PDict d) k = (case map_of d k of None \<Rightarrow> Inl (KeyError k) | Some v \<Rightarrow> Inr v)"
| "subscript v k = Inl TypeError"

text \<open>\<^verbatim>\<open>d.get(k, default)\<close> on a dictionary.\<close>

definition dict_get :: "(string \<times> pyval) list \<Rightarrow> string \<Rightarrow> pyval \<Rightarrow> pyval" where
  "dict_get d k dflt = (case map_of d k of None \<Rightarrow> dflt | Some v \<Rightarrow> v)"

text \<open>\<^verbatim>\<open>for x in v\<close>: the elements of a list, the keys of a dictionary, the
  characters of a string; the other values are not iterable.\<close>

fun py_iter :: "pyval \<Rightarrow> py_error + pyval list" where
  "py_iter (PList xs) = Inr xs"
| "py_iter (PDict d) = Inr (map (\<lambda>kv. PStr (fst kv)) d)"
| "py_iter (PStr s) = Inr (map (\<lambda>c. PStr [c]) s)"
| "py_iter v = Inl TypeError"

text \<open>\<^verbatim>\<open>v[:n]\<close>.\<close>

fun py_slice_to :: "nat \<Rightarrow> pyval \<Rightarrow> py_error + pyval" where
  "py_slice_to n (PStr s) = Inr (PStr (take n s))"
| "py_slice_to n (PList xs) = Inr (PList (take n xs))"
| "py_slice_to n v = Inl TypeError"

fun starts_with :: "string \<Rightarrow> string \<Rightarrow> bool" where
  "starts_with [] s = True"
| "starts_with (p # ps) [] = False"
| "starts_with (p # ps) (c # cs) = (p = c \<and> starts_with ps cs)"

text \<open>\<^verbatim>\<open>needle in haystack\<close> on two strings.\<close>

fun str_contains :: "string \<Rightarrow> string \<Rightarrow> bool" where
  "str_contains needle [] = (needle = [])"
| "str_contains needle (c # cs) = (starts_with needle (c # cs) \<or> str_contains needle cs)"

text \<open>\<^verbatim>\<open>needle in v\<close> for a string \<open>needle\<close> and any value \<open>v\<close>: substring
  test on a string, membership in a list, key membership in a dictionary, and
  \<^verbatim>\<open>TypeError\<close> on a value that is no container.\<close>

fun py_in :: "string \<Rightarrow> pyval \<Rightarrow> py_error + bool" where
  "py_in needle (PStr s) = Inr (str_contains needle s)"
| "py_in needle (PList xs) = Inr (PStr needle \<in> set xs)"
| "py_in needle (PDict d) = Inr (needle \<in> set (map fst d))"
| "py_in needle v = Inl TypeError"

text \<open>\<^verbatim>\<open>sep.join(values)\<close>: every value must be a string.\<close>

fun str_join :: "string \<Rightarrow> pyval list \<Rightarrow> py_error + string" where
  "str_join sep [] = Inr []"
| "str_join sep [PStr s] = Inr s"
| "str_join sep (PStr s # v # vs) =
     (case str_join sep (v # vs) of Inl e \<Rightarrow> Inl e | Inr r \<Rightarrow> Inr (s @ sep @ r))"
| "str_join sep (v # vs) = Inl TypeError"

text \<open>\<^verbatim>\<open>str.lower\<close>: among the code points below 256 the capital letters are
  \<open>A\<close> to \<open>Z\<close> and the code points 192 to 222 other than 215 (the
  multiplication sign); each becomes the code point 32 above it.\<close>

definition lower_char :: "char \<Rightarrow> char" where
  "lower_char c =
     (let n = (of_char c :: nat)
      in if (65 \<le> n \<and> n \<le> 90) \<or> (192 \<le> n \<and> n \<le> 222 \<and> n \<noteq> 215) then char_of (n + 32) else c)"

definition lower :: "string \<Rightarrow> string" where
  "lower s = map lower_char s"

section \<open>The research activity\<close>

text \<open>
  \<^verbatim>\<open>bleeding_edge_research_activity(topic)\<close> of
  \<^verbatim>\<open>temporal_research_workflows_v2.py\<close>.  The Tavily client and the clock are the
  activity's environment: \<open>tavily\<close> is the dictionary the search returns for a query
  (or the exception it raises), \<open>now\<close> the text of
  \<^verbatim>\<open>datetime.now().isoformat()\<close>.
\<close>

text \<open>One entry of \<^verbatim>\<open>sources\<close>, built from one search result \<open>r\<close>.\<close>

definition make_source :: "string \<Rightarrow> pyval \<Rightarrow> py_error + pyval" where
  "make_source topic r =
     bnd (subscript r ''title'') (\<lambda>title.
     bnd (subscript r ''url'') (\<lambda>url.
       (case r of
          PDict d \<Rightarrow>
            Inr (PDict [(''title'', title),
                        (''url'', url),
                        (''content'', dict_get d ''content'' (dict_get d ''snippet'' (PStr []))),
                        (''query'', PStr topic),
                        (''published_date'', dict_get d ''published_date'' (PStr ''N/A''))])
        | _ \<Rightarrow> Inl TypeError)))"

definition extract_sources :: "string \<Rightarrow> (string \<times> pyval) list \<Rightarrow> py_error + pyval list" where
  "extract_sources topic results =
     bnd (py_iter (dict_get results ''results'' (PList []))) (map_err (make_source topic))"

text \<open>The months of the date filter, in the order the condition tests them.\<close>

definition date_months :: "string list" where
  "date_months = [''2025-06'', ''2025-07'', ''2025-08'', ''2025-09'', ''2025-10'', ''2025-11'']"

text \<open>The chain of \<^verbatim>\<open>or\<close>: it stops at the first month found, and at the first
  test that raises.\<close>

fun any_in :: "string list \<Rightarrow> pyval \<Rightarrow> py_error + bool" where
  "any_in [] v = Inr False"
| "any_in (m # ms) v =
     (case py_in m v of Inl e \<Rightarrow> Inl e | Inr True \<Rightarrow> Inr True | Inr False \<Rightarrow> any_in ms v)"

text \<open>\<^verbatim>\<open>source.get('published_date', '')\<close> and the test on it.\<close>

definition in_date_range :: "pyval \<Rightarrow> py_error + bool" where
  "in_date_range source =
     (case source of
        PDict d \<Rightarrow> any_in date_months (dict_get d ''published_date'' (PStr []))
      | _ \<Rightarrow> Inl (AttributeError ''get''))"

text \<open>The loop that appends the matching sources to \<^verbatim>\<open>filtered_sources\<close>.\<close>

fun filter_loop :: "pyval list \<Rightarrow> pyval list \<Rightarrow> py_error + pyval list" where
  "filter_loop filtered [] = Inr filtered"
| "filter_loop filtered (source # rest) =
     (case in_date_range source of
        Inl e \<Rightarrow> Inl e
      | Inr True \<Rightarrow> filter_loop (filtered @ [source]) rest
      | Inr False \<Rightarrow> filter_loop filtered rest)"

text \<open>The filter with its fallback: \<^verbatim>\<open>if not filtered_sources: filtered_sources =
  sources[:10]\<close>.\<close>

definition filter_sources :: "pyval list \<Rightarrow> py_error + pyval list" where
  "filter_sources sources =
     bnd (filter_loop [] sources) (\<lambda>filtered_sources.
       Inr (if filtered_sources = [] then take 10 sources else filtered_sources))"

definition key_concepts :: "string list" where
  "key_concepts =
     [''Temporal workflows 2025'', ''Durable execution'', ''Agent orchestration 2025'',
      ''Crash recovery'', ''Multi-agent systems'', ''AI agents 2025'', ''Event sourcing'',
      ''State management'', ''Persistence'', ''Coordination'', ''LangGraph'',
      ''Production deployment'', ''Architecture patterns'', ''Best practices'',
      ''Case studies'']"

definition bleeding_edge_research_activity ::
  "(string \<Rightarrow> py_error + (string \<times> pyval) list) \<Rightarrow> string \<Rightarrow> string \<Rightarrow> py_error + pyval" where
  "bleeding_edge_research_activity tavily now topic =
     bnd (tavily topic) (\<lambda>results.
     bnd (extract_sources topic results) (\<lambda>sources.
     bnd (filter_sources sources) (\<lambda>filtered_sources.
     bnd (map_err (\<lambda>s. subscript s ''content'') (take 10 filtered_sources)) (\<lambda>contents.
     bnd (str_join '' '' contents) (\<lambda>all_content.
       (let found_concepts = filter (\<lambda>c. str_contains (lower c) (lower all_content)) key_concepts
        in Inr (PDict
             [(''topic'', PStr topic),
              (''sources'', PList filtered_sources),
              (''key_concepts'', PList (map PStr found_concepts)),
              (''total_sources'', PInt (int (length filtered_sources))),
              (''concepts_found'', PInt (int (length found_concepts))),
              (''coverage'',
                 PFloat (of_nat (length found_concepts) / of_nat (length key_concepts))),
              (''timestamp'', PStr now),
              (''date_filter'', PStr ''June-November 2025''),
              (''raw_count'', PInt (int (length sources))),
              (''filtered_count'', PInt (int (length filtered_sources)))])))))))"

text \<open>The activity of the same name in \<^verbatim>\<open>bleeding_edge_research_final.py\<close>:
  the same extraction and filter, a shorter dictionary.\<close>

definition bleeding_edge_research_activity_final ::
  "(string \<Rightarrow> py_error + (string \<times> pyval) list) \<Rightarrow> string \<Rightarrow> string \<Rightarrow> py_error + pyval" where
  "bleeding_edge_research_activity_final tavily now topic =
     bnd (tavily topic) (\<lambda>results.
     bnd (extract_sources topic results) (\<lambda>sources.
     bnd (filter_sources sources) (\<lambda>filtered_sources.
       Inr (PDict
         [(''topic'', PStr topic),
          (''sources'', PList filtered_sources),
          (''timestamp'', PStr now),
          (''date_filter'', PStr ''June-November 2025'')]))))"

section \<open>The report activity\<close>

text \<open>
  \<^verbatim>\<open>generate_markdown_report_activity(research_data)\<close> of
  \<^verbatim>\<open>temporal_research_workflows_v2.py\<close>.  The text Python produces for a value in
  an f-string is a parameter: \<open>str_of\<close> for \<^verbatim>\<open>{v}\<close> and \<open>pct_of\<close> for
  \<^verbatim>\<open>{v:.1%}\<close>, which raises on a value that is no number.  The template is kept
  line by line, with its line breaks (\<open>NL\<close>); only its pictographs, which are no
  code points below 256, are left out.  The result is the path the activity returns
  together with the content it writes to the file at that path.  What the activities
  print on the console is not part of the model.
\<close>

definition NL :: string where
  "NL = [CHR 0x0A]"

definition enumerate1 :: "'a list \<Rightarrow> (nat \<times> 'a) list" where
  "enumerate1 xs = zip [1 ..< Suc (length xs)] xs"

text \<open>The lines \<^verbatim>\<open>f"{i}. {x}\n"\<close> of the key findings and of the
  recommendations.\<close>

definition numbered_lines :: "(pyval \<Rightarrow> string) \<Rightarrow> pyval list \<Rightarrow> string" where
  "numbered_lines str_of xs =
     concat (map (\<lambda>ix. str_of (PInt (int (fst ix))) @ ''. '' @ str_of (snd ix) @ NL)
               (enumerate1 xs))"

text \<open>The section of one of the top sources.\<close>

definition source_section :: "(pyval \<Rightarrow> string) \<Rightarrow> nat \<times> pyval \<Rightarrow> py_error + string" where
  "source_section str_of isrc =
     (case isrc of (i, source) \<Rightarrow>
        bnd (subscript source ''title'') (\<lambda>title.
        bnd (subscript source ''url'') (\<lambda>url1.
        bnd (subscript source ''url'') (\<lambda>url2.
          (case source of
             PDict d \<Rightarrow>
               bnd (subscript source ''content'') (\<lambda>content.
               bnd (py_slice_to 500 content) (\<lambda>content500.
                 Inr (''### '' @ str_of (PInt (int i)) @ ''. '' @ str_of title @ NL @ NL @
                      ''**URL**: ['' @ str_of url1 @ '']('' @ str_of url2 @ '')'' @ NL @
                      ''**Published**: '' @
                        str_of (dict_get d ''published_date'' (PStr ''N/A'')) @ NL @ NL @
                      str_of content500 @ ''...'' @ NL @ NL @ ''---'' @ NL @ NL)))
           | _ \<Rightarrow> Inl (AttributeError ''get''))))))"

definition replace_char :: "char \<Rightarrow> char \<Rightarrow> string \<Rightarrow> string" where
  "replace_char old new s = map (\<lambda>c. if c = old then new else c) s"

definition safe_filename_of :: "pyval \<Rightarrow> py_error + string" where
  "safe_filename_of topic =
     (case topic of
        PStr t \<Rightarrow>
          Inr (take 50 (replace_char CHR '':'' CHR ''_''
                 (replace_char CHR ''/'' CHR ''_'' (replace_char CHR '' '' CHR ''_'' t))))
      | _ \<Rightarrow> Inl (AttributeError ''replace''))"

text \<open>The fixed text after the recommendations, up to the metadata.\<close>

definition next_steps_text :: string where
  "next_steps_text =
     NL @ ''---'' @ NL @ NL @ ''##  Next Steps'' @ NL @ NL @
     ''Based on this bleeding edge research:'' @ NL @ NL @
     ''1. **Immediate**: Implement Temporal workflows for agent coordination'' @ NL @
     ''2. **Short-term**: Build event sourcing for agent state'' @ NL @
     ''3. **Medium-term**: Create agent registry for discovery'' @ NL @
     ''4. **Long-term**: Scale to 50+ parallel agents'' @ NL @ NL @
     ''---'' @ NL @ NL @ ''##  Research Metadata'' @ NL @ NL"

text \<open>The fixed text that ends the report.\<close>

definition footer_text :: string where
  "footer_text =
     ''- **Research Method**: Parallel web search via Tavily API'' @ NL @
     ''- **Filter Applied**: June-November 2025 (Bleeding Edge)'' @ NL @
     ''- **Generated By**: Firebird Autonomous Research Swarm'' @ NL @ NL @
     ''---'' @ NL @ NL @
     ''*This report was generated autonomously by Firebird'' @ [CHR 0x27] @
     ''s Temporal-powered research agents.*'' @ NL @
     ''*For more information, see: https://github.com/adaptnova/firebird*'' @ NL"

definition generate_markdown_report_activity ::
  "(pyval \<Rightarrow> string) \<Rightarrow> (pyval \<Rightarrow> py_error + string) \<Rightarrow> pyval \<Rightarrow> py_error + string \<times> string" where
  "generate_markdown_report_activity str_of pct_of research_data =
     bnd (subscript research_data ''topic'') (\<lambda>topic.
     bnd (py_slice_to 50 topic) (\<lambda>topic50.
     bnd (subscript research_data ''timestamp'') (\<lambda>timestamp.
     bnd (subscript research_data ''date_filter'') (\<lambda>date_filter.
     bnd (subscript research_data ''filtered_count'') (\<lambda>filtered_count.
     bnd (subscript research_data ''raw_count'') (\<lambda>raw_count.
     bnd (subscript research_data ''executive_summary'') (\<lambda>executive_summary.
     bnd (bnd (subscript research_data ''key_findings'') py_iter) (\<lambda>key_findings.
     bnd (bnd (subscript research_data ''key_concepts'') py_iter) (\<lambda>concepts.
     bnd (bnd (bnd (subscript research_data ''sources'') (py_slice_to 5)) py_iter) (\<lambda>top_sources.
     bnd (map_err (source_section str_of) (enumerate1 top_sources)) (\<lambda>source_sections.
     bnd (bnd (subscript research_data ''recommendations'') py_iter) (\<lambda>recommendations.
     bnd (subscript research_data ''total_sources'') (\<lambda>total_sources.
     bnd (subscript research_data ''concepts_found'') (\<lambda>concepts_found.
     bnd (bnd (subscript research_data ''coverage'') pct_of) (\<lambda>coverage.
     bnd (safe_filename_of topic) (\<lambda>safe_filename.
       (let md_content =
              ''#  BLEEDING EDGE Research: '' @ str_of topic @ NL @ NL @
              ''**Generated**: '' @ str_of timestamp @ NL @
              ''**Research Period**: '' @ str_of date_filter @ NL @
              ''**Sources Analyzed**: '' @ str_of filtered_count @
              '' (from '' @ str_of raw_count @ '' total)'' @ NL @ NL @
              ''---'' @ NL @ NL @ ''##  Executive Summary'' @ NL @ NL @
              str_of executive_summary @ NL @ NL @
              ''---'' @ NL @ NL @ ''##  Key Findings'' @ NL @ NL @
              numbered_lines str_of key_findings @
              NL @ ''---'' @ NL @ NL @ ''##  Key Concepts Identified'' @ NL @ NL @
              concat (map (\<lambda>concept. ''- **'' @ str_of concept @ ''**'' @ NL) concepts) @
              NL @ ''---'' @ NL @ NL @ ''##  Top Sources (June-Nov 2025)'' @ NL @ NL @
              concat source_sections @
              NL @ ''##  Recommendations'' @ NL @ NL @
              numbered_lines str_of recommendations @
              next_steps_text @
              ''- **Total Sources**: '' @ str_of total_sources @ NL @
              ''- **Key Concepts**: '' @ str_of concepts_found @ NL @
              ''- **Coverage Score**: '' @ coverage @ NL @
              footer_text;
            md_path = ''/adapt/projects/firebird/reports/'' @ safe_filename @ ''.md''
        in Inr (md_path, md_content))))))))))))))))))"

section \<open>Workflow bodies and the operations they perform\<close>

text \<open>
  A workflow body is a coroutine: it runs until it awaits an operation, and goes on with
  the value the operation yields.  \<open>wf\<close> is the tree of such a body: \<open>Await\<close> one
  operation, or a \<open>TaskGroup\<close> of operations started together and joined.  Writing
  to standard output (\<^verbatim>\<open>print\<close>) is performed by the body itself.  No workflow body
  of the repository catches an exception, so an operation that fails ends the body.
\<close>

record RetryPolicy =
  initial_interval :: rat
  backoff_coefficient :: rat
  maximum_interval :: rat
  maximum_attempts :: nat

text \<open>The keyword arguments of \<^verbatim>\<open>workflow.execute_activity\<close>; times in seconds.\<close>

record activity_options =
  start_to_close_timeout :: "nat option"
  retry_policy :: "RetryPolicy option"

text \<open>
  The operations a body of the repository awaits: \<^verbatim>\<open>workflow.execute_activity\<close>
  (activity name, arguments, options), \<^verbatim>\<open>workflow.execute_child_workflow\<close>
  (workflow name, argument, id, task queue, start-to-close timeout in seconds), and
  \<^verbatim>\<open>Agent(model, ...).run(prompt)\<close>, the call of a language model through
  pydantic-ai, which is no primitive of the engine.
\<close>

datatype op =
    ExecuteActivity string "pyval list" activity_options
  | ExecuteChildWorkflow string pyval string string nat
  | AgentRun string string

datatype wf =
    Return pyval
  | Raise py_error
  | Print "pyval list" wf
  | Await op "pyval \<Rightarrow> wf"
  | TaskGroup "op list" "pyval list \<Rightarrow> wf"

subsection \<open>The task group\<close>

text \<open>
  \<^verbatim>\<open>async with TaskGroup() as tg\<close> with one task per child, followed by
  \<^verbatim>\<open>[task.result() for task in tasks]\<close>, as the fan-outs of
  \<^verbatim>\<open>BleedingEdgeOrchestrator.run_all\<close> and \<^verbatim>\<open>DeepResearchWorkflow.run\<close> are
  written.  Python's asyncio documents the construct: the block is left when every task
  has finished; the first time a task fails, the tasks still pending are cancelled, and
  the block then raises an \<^verbatim>\<open>ExceptionGroup\<close> of the failures.  A child is given by
  the time at which it would finish and its outcome.  The event loop is run tick by
  tick, in the order of the finishing times: at a tick every pending child that finishes
  then settles with its own outcome, and if one of them failed the children still
  pending after the tick are cancelled.
\<close>

datatype task_state = Pending | Done pyval | Failed py_error | Cancelled

fun settle :: "py_error + pyval \<Rightarrow> task_state" where
  "settle (Inr v) = Done v"
| "settle (Inl e) = Failed e"

definition cancel_pending :: "task_state list \<Rightarrow> task_state list" where
  "cancel_pending st = map (\<lambda>s. if s = Pending then Cancelled else s) st"

text \<open>A child paired with its state: the state after the tick at time \<open>t\<close>, and
  whether the child fails at that tick.\<close>

definition settle_at :: "nat \<Rightarrow> (nat \<times> (py_error + pyval)) \<times> task_state \<Rightarrow> task_state" where
  "settle_at t cs =
     (if fst (fst cs) = t \<and> snd cs = Pending then settle (snd (fst cs)) else snd cs)"

definition fails_at :: "nat \<Rightarrow> (nat \<times> (py_error + pyval)) \<times> task_state \<Rightarrow> bool" where
  "fails_at t cs = (fst (fst cs) = t \<and> snd cs = Pending \<and> isl (snd (fst cs)))"

definition tg_tick ::
  "(nat \<times> (py_error + pyval)) list \<Rightarrow> task_state list \<Rightarrow> nat \<Rightarrow> task_state list" where
  "tg_tick children st t =
     (if list_ex (fails_at t) (zip children st)
      then cancel_pending (map (settle_at t) (zip children st))
      else map (settle_at t) (zip children st))"

definition task_group :: "(nat \<times> (py_error + pyval)) list \<Rightarrow> task_state list" where
  "task_group children =
     foldl (tg_tick children) (replicate (length children) Pending) (sort (map fst children))"

text \<open>\<^verbatim>\<open>task.result()\<close>.\<close>

fun task_result :: "task_state \<Rightarrow> py_error + pyval" where
  "task_result (Done v) = Inr v"
| "task_result (Failed e) = Inl e"
| "task_result Cancelled = Inl CancelledError"
| "task_result Pending = Inl InvalidStateError"

fun failures :: "task_state list \<Rightarrow> py_error list" where
  "failures [] = []"
| "failures (Failed e # st) = e # failures st"
| "failures (s # st) = failures st"

text \<open>Leaving the block, then \<^verbatim>\<open>[task.result() for task in tasks]\<close>.\<close>

definition task_group_exit :: "task_state list \<Rightarrow> py_error + pyval list" where
  "task_group_exit st =
     (case failures st of [] \<Rightarrow> map_err task_result st | e # es \<Rightarrow> Inl (ExceptionGroup (e # es)))"

subsection \<open>Running a body\<close>

text \<open>
  The run of a body against its environment: \<open>out n c\<close> is what the \<open>n\<close>-th operation
  of the run yields when it is \<open>c\<close>, \<open>time n\<close> when it finishes.  The run gives the
  effects in the order the body performs them, and how the body ends.
\<close>

datatype effect = Printed "pyval list" | Called op

datatype result = Returned pyval | Raised py_error

text \<open>The children of a task group whose first operation is the \<open>n\<close>-th of the run.\<close>

definition children_of ::
  "(nat \<Rightarrow> op \<Rightarrow> py_error + pyval) \<Rightarrow> (nat \<Rightarrow> nat) \<Rightarrow> nat \<Rightarrow> op list \<Rightarrow> (nat \<times> (py_error + pyval)) list" where
  "children_of out time n os =
     map (\<lambda>io. (time (n + fst io), out (n + fst io) (snd io))) (enumerate 0 os)"

primrec exec :: "wf \<Rightarrow> (nat \<Rightarrow> op \<Rightarrow> py_error + pyval) \<Rightarrow> (nat \<Rightarrow> nat) \<Rightarrow> nat \<Rightarrow> effect list \<times> result" where
  "exec (Return v) out time n = ([], Returned v)"
| "exec (Raise e) out time n = ([], Raised e)"
| "exec (Print xs k) out time n =
     (case exec k out time n of (tr, r) \<Rightarrow> (Printed xs # tr, r))"
| "exec (Await c k) out time n =
     (case out n c of
        Inl e \<Rightarrow> ([Called c], Raised e)
      | Inr v \<Rightarrow> (case exec (k v) out time (Suc n) of (tr, r) \<Rightarrow> (Called c # tr, r)))"
| "exec (TaskGroup os k) out time n =
     (case task_group_exit (task_group (children_of out time n os)) of
        Inl e \<Rightarrow> (map Called os, Raised e)
      | Inr vs \<Rightarrow>
          (case exec (k vs) out time (n + length os) of (tr, r) \<Rightarrow> (map Called os @ tr, r)))"




subsection \<open>The workflows of the repository\<close>


text \<open>
  \<^verbatim>\<open>BleedingEdgeResearchWorkflow.run\<close> of
  \<^verbatim>\<open>temporal_research_workflows_v2.py\<close>.  The body builds the retry policy of
  its first activity with \<^verbatim>\<open>workflow.RetryPolicy(...)\<close>, a name it looks up in the
  module \<^verbatim>\<open>temporalio.workflow\<close> when the call is evaluated.  What that module
  provides is a parameter of the body: where the module has no such attribute (the
  Temporal SDK defines \<^verbatim>\<open>RetryPolicy\<close> in \<^verbatim>\<open>temporalio.common\<close>), the lookup
  raises \<^verbatim>\<open>AttributeError\<close> after the first \<^verbatim>\<open>print\<close> and before any activity
  is scheduled.  The orchestrators below depend on the module in the same way: they open
  their task group with \<^verbatim>\<open>workflow.TaskGroup()\<close>, and they pass
  \<^verbatim>\<open>start_to_close_timeout\<close> to \<^verbatim>\<open>workflow.execute_child_workflow\<close>, which
  raises \<^verbatim>\<open>TypeError\<close> at the call when the function has no such parameter.
\<close>

record workflow_module =
  provides_RetryPolicy :: bool
  provides_TaskGroup :: bool
  child_accepts_timeout :: bool

definition research_retry_policy :: RetryPolicy where
  "research_retry_policy =
     \<lparr>initial_interval = 1, backoff_coefficient = 2, maximum_interval = 15, maximum_attempts = 3\<rparr>"

definition research_op :: "string \<Rightarrow> op" where
  "research_op topic =
     ExecuteActivity ''bleeding_edge_research_activity'' [PStr topic]
       \<lparr>start_to_close_timeout = Some 180, retry_policy = Some research_retry_policy\<rparr>"

definition report_op :: "pyval \<Rightarrow> op" where
  "report_op research_data =
     ExecuteActivity ''generate_markdown_report_activity'' [research_data]
       \<lparr>start_to_close_timeout = Some 60, retry_policy = None\<rparr>"

definition BleedingEdgeResearchWorkflow_run :: "workflow_module \<Rightarrow> string \<Rightarrow> wf" where
  "BleedingEdgeResearchWorkflow_run lib topic =
     Print [PStr ''[Temporal Workflow] Starting Bleeding Edge research: '', PStr topic]
       (if provides_RetryPolicy lib
        then Await (research_op topic)
               (\<lambda>research_data.
                  Await (report_op research_data)
                    (\<lambda>report_path.
                       Print [PStr ''[Temporal Workflow] Completed: '', PStr (take 50 topic),
                              PStr ''...'']
                         (Return report_path)))
        else Raise (AttributeError ''RetryPolicy''))"

text \<open>Decimal digits of a number, for the child workflow ids.\<close>

function show_nat :: "nat \<Rightarrow> string" where
  "show_nat n =
     (if n < 10 then [char_of (48 + n)] else show_nat (n div 10) @ [char_of (48 + n mod 10)])"
  by pat_completeness auto
termination
  by (relation "measure id") auto

declare show_nat.simps [simp del]

text \<open>
  \<^verbatim>\<open>BleedingEdgeOrchestrator.run_all\<close> of
  \<^verbatim>\<open>temporal_research_workflows_v2.py\<close>: one child workflow per topic, numbered
  from 1.  \<open>fan_out\<close> is the block \<^verbatim>\<open>async with workflow.TaskGroup() as tg\<close>: the
  lookup of \<^verbatim>\<open>TaskGroup\<close> raises where the module lacks it; the first call of
  \<^verbatim>\<open>execute_child_workflow\<close> raises inside the block where the keyword is not
  accepted, and the block, with no task started, hands the exception on in an
  \<^verbatim>\<open>ExceptionGroup\<close>; otherwise the children are started and joined.
\<close>

definition child_workflow :: "nat \<times> string \<Rightarrow> op" where
  "child_workflow it =
     ExecuteChildWorkflow ''BleedingEdgeResearchWorkflow'' (PStr (snd it))
       (''bleeding-edge-'' @ show_nat (fst it) @ ''-'' @
          take 20 (replace_char CHR '' '' CHR ''_'' (snd it)))
       ''research-tasks'' 300"

definition fan_out :: "workflow_module \<Rightarrow> op list \<Rightarrow> (pyval list \<Rightarrow> wf) \<Rightarrow> wf" where
  "fan_out lib children k =
     (if \<not> provides_TaskGroup lib then Raise (AttributeError ''TaskGroup'')
      else if children \<noteq> [] \<and> \<not> child_accepts_timeout lib
      then Raise (ExceptionGroup [TypeError])
      else TaskGroup children k)"

definition BleedingEdgeOrchestrator_run_all :: "workflow_module \<Rightarrow> string list \<Rightarrow> wf" where
  "BleedingEdgeOrchestrator_run_all lib topics =
     Print [PStr ''[Orchestrator] Launching '', PInt (int (length topics)),
            PStr '' BLEEDING EDGE research workflows...'']
       (Print [PStr ''[Orchestrator] Date Filter: June-November 2025 ONLY'']
          (fan_out lib (map child_workflow (enumerate 1 topics))
             (\<lambda>results.
                Print [PStr ''[Orchestrator] All '', PInt (int (length results)),
                       PStr '' BLEEDING EDGE workflows completed!'']
                  (Return (PList results)))))"




section \<open>The worker that runs the activities\<close>

text \<open>
  The activities \<^verbatim>\<open>bleeding_edge_worker.py\<close> registers, called by name with the
  arguments a workflow passes; the report activity hands back the path only.  An
  exception of an activity reaches the workflow wrapped in an
  \<^verbatim>\<open>ActivityError\<close>.  The tavily client, the clock and the formatting of
  values are parameters, fixed during a run: an attempt the engine repeats under a
  retry policy computes the same outcome again, so one attempt stands for all.
\<close>

definition run_activity ::
  "(string \<Rightarrow> py_error + (string \<times> pyval) list) \<Rightarrow> string \<Rightarrow> (pyval \<Rightarrow> string) \<Rightarrow>
     (pyval \<Rightarrow> py_error + string) \<Rightarrow> string \<Rightarrow> pyval list \<Rightarrow> py_error + pyval" where
  "run_activity tavily now str_of pct_of name args =
     (if name = ''bleeding_edge_research_activity''
      then (case args of
              [PStr topic] \<Rightarrow> bleeding_edge_research_activity tavily now topic
            | _ \<Rightarrow> Inl TypeError)
      else if name = ''generate_markdown_report_activity''
      then (case args of
              [research_data] \<Rightarrow>
                (case generate_markdown_report_activity str_of pct_of research_data of
                   Inl e \<Rightarrow> Inl e
                 | Inr written \<Rightarrow> Inr (PStr (fst written)))
            | _ \<Rightarrow> Inl TypeError)
      else Inl (ExternalError ''activity is not registered''))"

definition worker_env ::
  "(string \<Rightarrow> py_error + (string \<times> pyval) list) \<Rightarrow> string \<Rightarrow> (pyval \<Rightarrow> string) \<Rightarrow>
     (pyval \<Rightarrow> py_error + string) \<Rightarrow> nat \<Rightarrow> op \<Rightarrow> py_error + pyval" where
  "worker_env tavily now str_of pct_of n c =
     (case c of
        ExecuteActivity name args opts \<Rightarrow>
          (case run_activity tavily now str_of pct_of name args of
             Inl e \<Rightarrow> Inl (ActivityError e)
           | Inr v \<Rightarrow> Inr v)
      | _ \<Rightarrow> Inl (ExternalError ''not an activity''))"

section \<open>Notions used in the statements\<close>

text \<open>The sources the date filter accepts.\<close>

definition matching_sources :: "pyval list \<Rightarrow> pyval list" where
  "matching_sources sources = filter (\<lambda>s. in_date_range s = Inr True) sources"

text \<open>The keys of the dictionary the research activity returns, in order.\<close>

definition research_keys :: "string list" where
  "research_keys =
     [''topic'', ''sources'', ''key_concepts'', ''total_sources'', ''concepts_found'',
      ''coverage'', ''timestamp'', ''date_filter'', ''raw_count'', ''filtered_count'']"

text \<open>A search that finds one article, published in January 2024.\<close>

definition undated_result :: pyval where
  "undated_result =
     PDict [(''title'', PStr ''T''), (''url'', PStr ''u''), (''content'', PStr ''c''),
            (''published_date'', PStr ''2024-01-15'')]"

definition undated_source :: pyval where
  "undated_source =
     PDict [(''title'', PStr ''T''), (''url'', PStr ''u''), (''content'', PStr ''c''),
            (''query'', PStr ''t''), (''published_date'', PStr ''2024-01-15'')]"

definition undated_tavily :: "string \<Rightarrow> py_error + (string \<times> pyval) list" where
  "undated_tavily q = Inr [(''results'', PList [undated_result])]"

text \<open>What the research activity returns for that search.\<close>

definition undated_output :: pyval where
  "undated_output =
     PDict [(''topic'', PStr ''t''), (''sources'', PList [undated_source]),
            (''key_concepts'', PList []), (''total_sources'', PInt 1),
            (''concepts_found'', PInt 0), (''coverage'', PFloat 0),
            (''timestamp'', PStr ''now''), (''date_filter'', PStr ''June-November 2025''),
            (''raw_count'', PInt 1), (''filtered_count'', PInt 1)]"






section \<open>The join the specification describes\<close>



definition failure_times :: "(nat \<times> (py_error + pyval)) list \<Rightarrow> nat list" where
  "failure_times children = map fst (filter (\<lambda>c. isl (snd c)) children)"




text \<open>The state of a task group after the ticks at the times of \<open>D\<close>.\<close>

definition failed_by :: "(nat \<times> (py_error + pyval)) list \<Rightarrow> nat set \<Rightarrow> nat set" where
  "failed_by children D = {t \<in> D. \<exists>c\<in>set children. fst c = t \<and> isl (snd c)}"

definition state_after :: "(nat \<times> (py_error + pyval)) list \<Rightarrow> nat set \<Rightarrow> task_state list" where
  "state_after children D =
     (if failed_by children D = {}
      then map (\<lambda>c. if fst c \<in> D then settle (snd c) else Pending) children
      else map (\<lambda>c. if fst c \<le> Min (failed_by children D) then settle (snd c) else Cancelled)
             children)"

text \<open>The outcomes of the children of a task group, in the order of the input list.\<close>

definition outcomes_of :: "(nat \<Rightarrow> op \<Rightarrow> py_error + pyval) \<Rightarrow> nat \<Rightarrow> op list \<Rightarrow> (py_error + pyval) list" where
  "outcomes_of out n os = map (\<lambda>io. out (n + fst io) (snd io)) (enumerate 0 os)"


text \<open>A module that provides what the orchestrators look up, and the module as the
  Temporal SDK has it.\<close>

definition patched_module :: workflow_module where
  "patched_module =
     \<lparr>provides_RetryPolicy = True, provides_TaskGroup = True, child_accepts_timeout = True\<rparr>"

definition sdk_module :: workflow_module where
  "sdk_module =
     \<lparr>provides_RetryPolicy = False, provides_TaskGroup = False, child_accepts_timeout = False\<rparr>"

text \<open>Children for the examples: three that succeed and finish after 5, 1 and 3
  seconds; two of which the first fails after 1 second and the second would succeed
  after 2.\<close>

definition children_513 :: "(nat \<times> (py_error + pyval)) list" where
  "children_513 = [(5, Inr (PStr ''child0'')), (1, Inr (PStr ''child1'')), (3, Inr (PStr ''child2''))]"


section \<open>Workers and the names clients start\<close>

text \<open>
  A worker registers workflow classes and activity functions for one task queue
  (\<^verbatim>\<open>Worker(client, task_queue, workflows, activities)\<close>).  A class decorated with
  \<^verbatim>\<open>@workflow.defn\<close> and a function decorated with \<^verbatim>\<open>@activity.defn\<close> are
  registered under their own names; these are the names the repository uses when it
  starts \<^verbatim>\<open>"ResearchWorkflow"\<close>, \<^verbatim>\<open>"DeepResearchWorkflow"\<close> and the child
  workflow \<^verbatim>\<open>"BleedingEdgeResearchWorkflow"\<close>.
\<close>

record worker =
  task_queue :: string
  workflows :: "string list"
  activities :: "string list"

text \<open>\<^verbatim>\<open>worker.py\<close>, \<^verbatim>\<open>bleeding_edge_worker.py\<close> (and
  \<^verbatim>\<open>run_bleeding_worker.py\<close>, which registers the same names), and
  \<^verbatim>\<open>pydantic_ai_examples/temporal_worker.py\<close>.\<close>

definition simple_worker :: worker where
  "simple_worker =
     \<lparr>task_queue = ''research-tasks'', workflows = [''ResearchWorkflow''],
      activities = [''research_activity'']\<rparr>"

definition bleeding_edge_worker :: worker where
  "bleeding_edge_worker =
     \<lparr>task_queue = ''research-tasks'',
      workflows = [''BleedingEdgeResearchWorkflow'', ''BleedingEdgeOrchestrator''],
      activities = [''bleeding_edge_research_activity'', ''generate_markdown_report_activity'']\<rparr>"

definition temporal_worker :: worker where
  "temporal_worker =
     \<lparr>task_queue = ''research-tasks'',
      workflows = [''ResearchWorkflow'', ''DeepResearchWorkflow''],
      activities = [''research_activity'', ''search_activity'', ''analysis_activity'']\<rparr>"

definition all_workers :: "worker list" where
  "all_workers = [simple_worker, bleeding_edge_worker, temporal_worker]"

text \<open>The worker that can run a workflow type started on a task queue, if any.\<close>

definition resolve :: "worker list \<Rightarrow> string \<Rightarrow> string \<Rightarrow> worker option" where
  "resolve ws name queue = find (\<lambda>w. task_queue w = queue \<and> name \<in> set (workflows w)) ws"



text \<open>
  The workflow types the clients of the repository start, each with its task queue:
  \<^verbatim>\<open>run_bleeding_edge_research_swarm\<close> and \<^verbatim>\<open>run_bleeding_edge_swarm\<close> start
  the orchestrator, \<^verbatim>\<open>simple_temporal_demo.py\<close> the research workflow,
  \<^verbatim>\<open>run_with_temporal\<close> the deep research workflow, and the orchestrator starts one
  child workflow per topic.
\<close>

definition orchestrator_start :: "string \<times> string" where
  "orchestrator_start = (''BleedingEdgeOrchestrator.run_all'', ''research-tasks'')"

definition demo_start :: "string \<times> string" where
  "demo_start = (''ResearchWorkflow'', ''research-tasks'')"

definition deep_research_start :: "string \<times> string" where
  "deep_research_start = (''DeepResearchWorkflow'', ''deep-research'')"

definition child_start :: "string \<times> string" where
  "child_start = (''BleedingEdgeResearchWorkflow'', ''research-tasks'')"

definition registered :: "worker list \<Rightarrow> string \<times> string \<Rightarrow> bool" where
  "registered ws start = (resolve ws (fst start) (snd start) \<noteq> None)"

section \<open>The retry schedule of the specification\<close>

text \<open>
  Modelled from the spec: the activity scheduler (specification, section 4.3), which is
  the Temporal service and not part of the repository.  On a failure report of attempt
  \<open>attempt\<close>: if \<open>attempt < maxAttempts\<close> (or unlimited, \<open>maxAttempts = 0\<close>) and the
  error is marked retryable, the task is re-enqueued after
  \<open>min (initialInterval * backoffCoefficient ^ (attempt - 1)) maxInterval\<close> and the
  attempt is incremented; otherwise \<open>ActivityFailed\<close> is appended with the terminal
  error.  On a completion report \<open>ActivityCompleted\<close> is appended.  The policy is the
  record the workflow passes (\<open>research_retry_policy\<close> in
  \<^verbatim>\<open>BleedingEdgeResearchWorkflow.run\<close>); intervals are in seconds.
\<close>

datatype report = Completion pyval | Failure py_error bool

datatype scheduler_event = Requeued rat | ActivityCompleted pyval | ActivityFailed py_error

definition retry_delay :: "RetryPolicy \<Rightarrow> nat \<Rightarrow> rat" where
  "retry_delay p attempt =
     min (initial_interval p * backoff_coefficient p ^ (attempt - 1)) (maximum_interval p)"

definition may_retry :: "RetryPolicy \<Rightarrow> nat \<Rightarrow> bool" where
  "may_retry p attempt = (maximum_attempts p = 0 \<or> attempt < maximum_attempts p)"

text \<open>What the scheduler does with the reports of the successive attempts of one
  activity, the next report being that of attempt \<open>attempt\<close>: one event per report it
  receives, none after a terminal event.\<close>

fun schedule :: "RetryPolicy \<Rightarrow> nat \<Rightarrow> report list \<Rightarrow> scheduler_event list" where
  "schedule p attempt [] = []"
| "schedule p attempt (Completion v # rs) = [ActivityCompleted v]"
| "schedule p attempt (Failure e retryable # rs) =
     (if retryable \<and> may_retry p attempt
      then Requeued (retry_delay p attempt) # schedule p (Suc attempt) rs
      else [ActivityFailed e])"

section \<open>Exceptions and strings\<close>

lemma bnd_Inr_iff: "bnd m f = Inr y \<longleftrightarrow> (\<exists>x. m = Inr x \<and> f x = Inr y)"
  by (cases m) (simp_all add: bnd_def)

lemma bnd_Inr [simp]: "bnd (Inr x) f = f x"
  by (simp add: bnd_def)

lemma bnd_Inl [simp]: "bnd (Inl e) f = Inl e"
  by (simp add: bnd_def)



section \<open>The date filter of the research activity\<close>



lemma filter_loop_Inr:
  "filter_loop acc xs = Inr out \<Longrightarrow> out = acc @ matching_sources xs"
proof (induction xs arbitrary: acc)
  case Nil
  then show ?case by (simp add: matching_sources_def)
next
  case (Cons x xs)
  show ?case
  proof (cases "in_date_range x")
    case (Inl e)
    with Cons.prems show ?thesis by simp
  next
    case (Inr b)
    show ?thesis
    proof (cases b)
      case True
      with Inr Cons.prems have "filter_loop (acc @ [x]) xs = Inr out" by simp
      from Cons.IH [OF this] show ?thesis using Inr True by (simp add: matching_sources_def)
    next
      case False
      with Inr Cons.prems have "filter_loop acc xs = Inr out" by simp
      from Cons.IH [OF this] show ?thesis using Inr False by (simp add: matching_sources_def)
    qed
  qed
qed

lemma filter_sources_Inr:
  "filter_sources sources = Inr out \<Longrightarrow>
     out = (if matching_sources sources = [] then take 10 sources else matching_sources sources)"
  by (auto simp: filter_sources_def bnd_Inr_iff dest!: filter_loop_Inr)
















text \<open>The activity of \<^verbatim>\<open>bleeding_edge_research_final.py\<close> filters the same way.\<close>

lemma research_activity_final_date_filter:
  assumes "tavily topic = Inr results"
    and "extract_sources topic results = Inr sources"
    and "bleeding_edge_research_activity_final tavily now topic = Inr out"
  shows "subscript out ''date_filter'' = Inr (PStr ''June-November 2025'') \<and>
         subscript out ''sources'' =
           Inr (PList (if matching_sources sources = [] then take 10 sources
                       else matching_sources sources))"
  using assms
  by (auto simp: bleeding_edge_research_activity_final_def bnd_Inr_iff dest!: filter_sources_Inr)

section \<open>The report activity on the output of the research activity\<close>

lemma undated_research:
  "bleeding_edge_research_activity undated_tavily ''now'' ''t'' = Inr undated_output"
  by (simp add: bleeding_edge_research_activity_def undated_tavily_def undated_result_def
      undated_source_def undated_output_def extract_sources_def dict_get_def make_source_def
      filter_sources_def in_date_range_def date_months_def key_concepts_def lower_def
      lower_char_def)

lemma research_activity_shape:
  assumes "bleeding_edge_research_activity tavily now topic = Inr d"
  shows "\<exists>srcs cs ts nf cov rc fc.
           d = PDict [(''topic'', PStr topic), (''sources'', srcs), (''key_concepts'', cs),
                      (''total_sources'', ts), (''concepts_found'', nf), (''coverage'', cov),
                      (''timestamp'', PStr now), (''date_filter'', PStr ''June-November 2025''),
                      (''raw_count'', rc), (''filtered_count'', fc)]"
  using assms
  by (auto simp: bleeding_edge_research_activity_def bnd_Inr_iff Let_def)

lemma research_activity_keys:
  assumes "bleeding_edge_research_activity tavily now topic = Inr d"
  shows "\<exists>kvs. d = PDict kvs \<and> map fst kvs = research_keys"
  using research_activity_shape [OF assms] by (auto simp: research_keys_def)

lemma report_on_research_output:
  assumes "bleeding_edge_research_activity tavily now topic = Inr d"
  shows "generate_markdown_report_activity str_of pct_of d = Inl (KeyError ''executive_summary'')"
proof -
  from research_activity_shape [OF assms] obtain srcs cs ts nf cov rc fc where
    d: "d = PDict [(''topic'', PStr topic), (''sources'', srcs), (''key_concepts'', cs),
                   (''total_sources'', ts), (''concepts_found'', nf), (''coverage'', cov),
                   (''timestamp'', PStr now), (''date_filter'', PStr ''June-November 2025''),
                   (''raw_count'', rc), (''filtered_count'', fc)]"
    by blast
  show ?thesis
    unfolding d generate_markdown_report_activity_def by simp
qed

lemma worker_env_research:
  "worker_env tavily now str_of pct_of n (research_op topic) =
   (case bleeding_edge_research_activity tavily now topic of
      Inl e \<Rightarrow> Inl (ActivityError e) | Inr v \<Rightarrow> Inr v)"
  by (simp add: worker_env_def run_activity_def research_op_def)

lemma worker_env_report:
  "worker_env tavily now str_of pct_of n (report_op d) =
   (case generate_markdown_report_activity str_of pct_of d of
      Inl e \<Rightarrow> Inl (ActivityError e) | Inr written \<Rightarrow> Inr (PStr (fst written)))"
  by (simp add: worker_env_def run_activity_def report_op_def split: sum.splits)

text \<open>Where the module lacks \<^verbatim>\<open>RetryPolicy\<close>, the body prints and raises.\<close>

lemma pipeline_without_RetryPolicy:
  assumes "\<not> provides_RetryPolicy lib"
  shows "exec (BleedingEdgeResearchWorkflow_run lib topic) out time n =
         ([Printed [PStr ''[Temporal Workflow] Starting Bleeding Edge research: '', PStr topic]],
          Raised (AttributeError ''RetryPolicy''))"
  using assms by (simp add: BleedingEdgeResearchWorkflow_run_def)

text \<open>Where the module has it, the body hands the output of the research activity to
  the report activity, which raises.\<close>

lemma pipeline_with_RetryPolicy:
  assumes "provides_RetryPolicy lib"
    and "bleeding_edge_research_activity tavily now topic = Inr d"
  shows "exec (BleedingEdgeResearchWorkflow_run lib topic)
           (worker_env tavily now str_of pct_of) time n =
         ([Printed [PStr ''[Temporal Workflow] Starting Bleeding Edge research: '', PStr topic],
           Called (research_op topic), Called (report_op d)],
          Raised (ActivityError (KeyError ''executive_summary'')))"
  using assms report_on_research_output [OF assms(2), of str_of pct_of]
  by (simp add: BleedingEdgeResearchWorkflow_run_def worker_env_research worker_env_report)

lemma pipeline_research_fails:
  assumes "provides_RetryPolicy lib"
    and "bleeding_edge_research_activity tavily now topic = Inl e"
  shows "snd (exec (BleedingEdgeResearchWorkflow_run lib topic)
           (worker_env tavily now str_of pct_of) time n) = Raised (ActivityError e)"
  using assms
  by (simp add: BleedingEdgeResearchWorkflow_run_def worker_env_research)

lemma pipeline_never_returns:
  "snd (exec (BleedingEdgeResearchWorkflow_run lib topic)
          (worker_env tavily now str_of pct_of) time n) \<noteq> Returned v"
proof (cases "provides_RetryPolicy lib")
  case False
  then show ?thesis by (simp add: pipeline_without_RetryPolicy)
next
  case True
  show ?thesis
  proof (cases "bleeding_edge_research_activity tavily now topic")
    case (Inl e)
    with True show ?thesis by (simp add: pipeline_research_fails)
  next
    case (Inr d)
    with True show ?thesis by (simp add: pipeline_with_RetryPolicy)
  qed
qed

text \<open>
  Claim C9.  The dictionary the research activity returns has the ten keys of
  \<open>research_keys\<close> and no other, and the report activity raises
  \<^verbatim>\<open>KeyError('executive_summary')\<close> on it, for every topic and every search
  response.  In the run of \<^verbatim>\<open>BleedingEdgeResearchWorkflow.run\<close> by the worker that
  registers the two activities: where \<^verbatim>\<open>temporalio.workflow\<close> provides
  \<^verbatim>\<open>RetryPolicy\<close>, the body prints, calls the research activity and calls the report
  activity with exactly the dictionary the research activity returned; where it does not,
  the body prints and raises \<^verbatim>\<open>AttributeError\<close> without calling an activity; either
  way it returns a report path for no topic.
\<close>

theorem research_output_breaks_report:
  "(\<forall>d. bleeding_edge_research_activity tavily now topic = Inr d \<longrightarrow>
        (\<exists>kvs. d = PDict kvs \<and> map fst kvs = research_keys) \<and>
        generate_markdown_report_activity str_of pct_of d = Inl (KeyError ''executive_summary'') \<and>
        (provides_RetryPolicy lib \<longrightarrow>
           fst (exec (BleedingEdgeResearchWorkflow_run lib topic)
                  (worker_env tavily now str_of pct_of) time n) =
             [Printed [PStr ''[Temporal Workflow] Starting Bleeding Edge research: '', PStr topic],
              Called (research_op topic), Called (report_op d)])) \<and>
   (\<not> provides_RetryPolicy lib \<longrightarrow>
      exec (BleedingEdgeResearchWorkflow_run lib topic)
        (worker_env tavily now str_of pct_of) time n =
      ([Printed [PStr ''[Temporal Workflow] Starting Bleeding Edge research: '', PStr topic]],
       Raised (AttributeError ''RetryPolicy''))) \<and>
   (\<forall>v. snd (exec (BleedingEdgeResearchWorkflow_run lib topic)
                (worker_env tavily now str_of pct_of) time n) \<noteq> Returned v)"
proof (intro conjI allI impI)
  fix d
  assume "bleeding_edge_research_activity tavily now topic = Inr d"
  then show "\<exists>kvs. d = PDict kvs \<and> map fst kvs = research_keys"
    by (rule research_activity_keys)
next
  fix d
  assume "bleeding_edge_research_activity tavily now topic = Inr d"
  then show "generate_markdown_report_activity str_of pct_of d = Inl (KeyError ''executive_summary'')"
    by (rule report_on_research_output)
next
  fix d
  assume "bleeding_edge_research_activity tavily now topic = Inr d" "provides_RetryPolicy lib"
  then show "fst (exec (BleedingEdgeResearchWorkflow_run lib topic)
                  (worker_env tavily now str_of pct_of) time n) =
             [Printed [PStr ''[Temporal Workflow] Starting Bleeding Edge research: '', PStr topic],
              Called (research_op topic), Called (report_op d)]"
    by (simp add: pipeline_with_RetryPolicy)
next
  assume "\<not> provides_RetryPolicy lib"
  then show "exec (BleedingEdgeResearchWorkflow_run lib topic)
        (worker_env tavily now str_of pct_of) time n =
      ([Printed [PStr ''[Temporal Workflow] Starting Bleeding Edge research: '', PStr topic]],
       Raised (AttributeError ''RetryPolicy''))"
    by (rule pipeline_without_RetryPolicy)
next
  fix v
  show "snd (exec (BleedingEdgeResearchWorkflow_run lib topic)
              (worker_env tavily now str_of pct_of) time n) \<noteq> Returned v"
    by (rule pipeline_never_returns)
qed

text \<open>
  The search that finds one article: the research activity returns \<open>undated_output\<close>,
  on which the report activity raises.  With the module as the Temporal SDK has it
  (\<open>sdk_module\<close>) the body prints and raises \<^verbatim>\<open>AttributeError\<close>; with a module
  that provides \<^verbatim>\<open>RetryPolicy\<close> (\<open>patched_module\<close>) it passes \<open>undated_output\<close>
  to the report activity.
\<close>

theorem research_output_breaks_report_witness:
  "bleeding_edge_research_activity undated_tavily ''now'' ''t'' = Inr undated_output \<and>
   generate_markdown_report_activity (\<lambda>v. []) (\<lambda>v. Inr []) undated_output =
     Inl (KeyError ''executive_summary'') \<and>
   exec (BleedingEdgeResearchWorkflow_run sdk_module ''t'')
     (worker_env undated_tavily ''now'' (\<lambda>v. []) (\<lambda>v. Inr [])) (\<lambda>k. 0) 0 =
     ([Printed [PStr ''[Temporal Workflow] Starting Bleeding Edge research: '', PStr ''t'']],
      Raised (AttributeError ''RetryPolicy'')) \<and>
   fst (exec (BleedingEdgeResearchWorkflow_run patched_module ''t'')
          (worker_env undated_tavily ''now'' (\<lambda>v. []) (\<lambda>v. Inr [])) (\<lambda>k. 0) 0) =
     [Printed [PStr ''[Temporal Workflow] Starting Bleeding Edge research: '', PStr ''t''],
      Called (research_op ''t''), Called (report_op undated_output)]"
proof -
  note sdk = research_output_breaks_report
    [of undated_tavily "''now''" "''t''" "\<lambda>v. []" "\<lambda>v. Inr []"
        "sdk_module" "\<lambda>k. 0" 0]
  note patched = research_output_breaks_report
    [of undated_tavily "''now''" "''t''" "\<lambda>v. []" "\<lambda>v. Inr []"
        "patched_module" "\<lambda>k. 0" 0]
  from sdk undated_research have
    "generate_markdown_report_activity (\<lambda>v. []) (\<lambda>v. Inr []) undated_output =
       Inl (KeyError ''executive_summary'')"
    by blast
  moreover from sdk have
    "exec (BleedingEdgeResearchWorkflow_run sdk_module ''t'')
       (worker_env undated_tavily ''now'' (\<lambda>v. []) (\<lambda>v. Inr [])) (\<lambda>k. 0) 0 =
     ([Printed [PStr ''[Temporal Workflow] Starting Bleeding Edge research: '', PStr ''t'']],
      Raised (AttributeError ''RetryPolicy''))"
    by (simp add: sdk_module_def)
  moreover from patched undated_research have
    "fst (exec (BleedingEdgeResearchWorkflow_run patched_module ''t'')
          (worker_env undated_tavily ''now'' (\<lambda>v. []) (\<lambda>v. Inr [])) (\<lambda>k. 0) 0) =
     [Printed [PStr ''[Temporal Workflow] Starting Bleeding Edge research: '', PStr ''t''],
      Called (research_op ''t''), Called (report_op undated_output)]"
    by (simp add: patched_module_def)
  ultimately show ?thesis using undated_research by blast
qed

section \<open>The task group\<close>

lemma settle_not_Pending [simp]: "settle x \<noteq> Pending" "Pending \<noteq> settle x"
  by (cases x; simp)+

lemma settle_not_Cancelled [simp]: "settle x \<noteq> Cancelled" "Cancelled \<noteq> settle x"
  by (cases x; simp)+

lemma finite_failed_by [simp]: "finite (failed_by children D)"
proof -
  have "failed_by children D \<subseteq> fst ` set children"
    by (auto simp: failed_by_def)
  then show ?thesis by (rule finite_subset) simp
qed

lemma failed_by_insert:
  "failed_by children (insert t D) =
     (if \<exists>c\<in>set children. fst c = t \<and> isl (snd c) then insert t (failed_by children D)
      else failed_by children D)"
  by (auto simp: failed_by_def)

lemma tick_map:
  "tg_tick children (map f children) t =
     (if \<exists>c\<in>set children. fails_at t (c, f c)
      then cancel_pending (map (\<lambda>c. settle_at t (c, f c)) children)
      else map (\<lambda>c. settle_at t (c, f c)) children)"
proof -
  have z: "zip children (map f children) = map (\<lambda>c. (c, f c)) children"
    by (induction children) simp_all
  show ?thesis
    unfolding tg_tick_def z by (simp add: list_ex_iff comp_def)
qed

lemma tick_step:
  assumes le: "\<forall>d\<in>D. d \<le> t"
    and closed: "\<forall>c\<in>set children. fst c < t \<longrightarrow> fst c \<in> D"
  shows "tg_tick children (state_after children D) t = state_after children (insert t D)"
proof (cases "failed_by children D = {}")
  case True
  let ?f = "\<lambda>c. if fst c \<in> D then settle (snd c) else Pending"
  let ?g = "\<lambda>c. if fst c \<in> insert t D then settle (snd c) else Pending"
  have st: "state_after children D = map ?f children"
    using True by (simp add: state_after_def)
  have settle: "settle_at t (c, ?f c) = ?g c" for c :: "nat \<times> (py_error + pyval)"
    by (simp add: settle_at_def)
  have fails: "fails_at t (c, ?f c) \<longleftrightarrow> fst c = t \<and> t \<notin> D \<and> isl (snd c)"
    for c :: "nat \<times> (py_error + pyval)"
    by (auto simp: fails_at_def)
  have not_in: "\<not> (\<exists>c\<in>set children. fst c = t \<and> isl (snd c))" if "t \<in> D"
  proof
    assume "\<exists>c\<in>set children. fst c = t \<and> isl (snd c)"
    with that have "t \<in> failed_by children D" by (auto simp: failed_by_def)
    with True show False by simp
  qed
  show ?thesis
  proof (cases "\<exists>c\<in>set children. fst c = t \<and> t \<notin> D \<and> isl (snd c)")
    case fail: True
    then have ft: "\<exists>c\<in>set children. fst c = t \<and> isl (snd c)" by blast
    have fb: "failed_by children (insert t D) = {t}"
      using ft True by (simp add: failed_by_insert)
    have range: "fst c \<in> insert t D \<longleftrightarrow> fst c \<le> t" if "c \<in> set children" for c
      using that le closed by (cases "fst c = t") (auto simp: less_le)
    have cond: "\<exists>c\<in>set children. fails_at t (c, ?f c)"
      using fail unfolding fails .
    have "tg_tick children (state_after children D) t = cancel_pending (map ?g children)"
      unfolding st tick_map by (simp only: cond if_True settle)
    also have "\<dots> = map (\<lambda>c. if fst c \<le> t then settle (snd c) else Cancelled) children"
      using range by (simp add: cancel_pending_def)
    also have "\<dots> = state_after children (insert t D)"
      by (simp add: state_after_def fb)
    finally show ?thesis .
  next
    case nofail: False
    have fb: "failed_by children (insert t D) = {}"
    proof (cases "t \<in> D")
      case True
      with not_in show ?thesis using \<open>failed_by children D = {}\<close> by (simp add: failed_by_insert)
    next
      case False
      with nofail have "\<not> (\<exists>c\<in>set children. fst c = t \<and> isl (snd c))" by blast
      then show ?thesis using \<open>failed_by children D = {}\<close> by (simp add: failed_by_insert)
    qed
    have cond: "\<not> (\<exists>c\<in>set children. fails_at t (c, ?f c))"
      using nofail unfolding fails .
    have "tg_tick children (state_after children D) t = map ?g children"
      unfolding st tick_map by (simp only: cond if_False settle)
    also have "\<dots> = state_after children (insert t D)"
      by (simp add: state_after_def fb)
    finally show ?thesis .
  qed
next
  case False
  define m where "m = Min (failed_by children D)"
  let ?f = "\<lambda>c. if fst c \<le> m then settle (snd c) else Cancelled"
  have st: "state_after children D = map ?f children"
    using False by (simp add: state_after_def m_def)
  have m_in: "m \<in> failed_by children D"
    unfolding m_def using False by (intro Min_in) simp_all
  then have "m \<in> D" by (simp add: failed_by_def)
  with le have m_le: "m \<le> t" by blast
  have settle: "settle_at t (c, ?f c) = ?f c" for c :: "nat \<times> (py_error + pyval)"
    by (simp add: settle_at_def)
  have fails: "\<not> fails_at t (c, ?f c)" for c :: "nat \<times> (py_error + pyval)"
    by (simp add: fails_at_def)
  have ne: "failed_by children (insert t D) \<noteq> {}"
    using False by (auto simp: failed_by_insert)
  have "Min (failed_by children (insert t D)) = m"
  proof (cases "\<exists>c\<in>set children. fst c = t \<and> isl (snd c)")
    case True
    then have "failed_by children (insert t D) = insert t (failed_by children D)"
      by (simp add: failed_by_insert)
    then have "Min (failed_by children (insert t D)) = min t m"
      using False by (simp add: m_def)
    with m_le show ?thesis by simp
  next
    case nf: False
    have "failed_by children (insert t D) = failed_by children D"
      unfolding failed_by_insert by (simp only: nf if_False)
    then show ?thesis by (simp add: m_def)
  qed
  then have "state_after children (insert t D) = map ?f children"
    using ne by (simp add: state_after_def)
  moreover have "tg_tick children (state_after children D) t = map ?f children"
    unfolding st tick_map by (simp add: fails settle)
  ultimately show ?thesis by simp
qed

lemma ticks_fold:
  assumes "sorted ts"
    and "\<forall>d\<in>D. \<forall>t\<in>set ts. d \<le> t"
    and "\<forall>c\<in>set children. fst c \<in> D \<or> fst c \<in> set ts"
  shows "foldl (tg_tick children) (state_after children D) ts = state_after children (D \<union> set ts)"
  using assms
proof (induction ts arbitrary: D)
  case Nil
  then show ?case by simp
next
  case (Cons t ts)
  have le: "\<forall>d\<in>D. d \<le> t" using Cons.prems(2) by simp
  have closed: "\<forall>c\<in>set children. fst c < t \<longrightarrow> fst c \<in> D"
  proof (intro ballI impI)
    fix c assume c: "c \<in> set children" and lt: "fst c < t"
    from Cons.prems(3) c have "fst c \<in> D \<or> fst c \<in> set (t # ts)" by blast
    moreover have "\<forall>x\<in>set (t # ts). t \<le> x" using Cons.prems(1) by auto
    ultimately show "fst c \<in> D" using lt by auto
  qed
  have step: "tg_tick children (state_after children D) t = state_after children (insert t D)"
    using le closed by (rule tick_step)
  have "foldl (tg_tick children) (state_after children (insert t D)) ts =
      state_after children (insert t D \<union> set ts)"
  proof (rule Cons.IH)
    show "sorted ts" using Cons.prems(1) by simp
    show "\<forall>d\<in>insert t D. \<forall>t'\<in>set ts. d \<le> t'"
      using Cons.prems(1,2) by auto
    show "\<forall>c\<in>set children. fst c \<in> insert t D \<or> fst c \<in> set ts"
      using Cons.prems(3) by auto
  qed
  then show ?case by (simp add: step)
qed

lemma failed_by_all: "failed_by children (fst ` set children) = set (failure_times children)"
  by (force simp: failed_by_def failure_times_def)

text \<open>The state in which the task group ends.\<close>

lemma task_group_final:
  "task_group children =
     (if failure_times children = [] then map (\<lambda>c. settle (snd c)) children
      else map (\<lambda>c. if fst c \<le> Min (set (failure_times children)) then settle (snd c)
                     else Cancelled) children)"
proof -
  have start: "state_after children {} = replicate (length children) Pending"
    by (simp add: state_after_def failed_by_def map_replicate_const)
  have "foldl (tg_tick children) (state_after children {}) (sort (map fst children)) =
      state_after children ({} \<union> set (sort (map fst children)))"
    by (rule ticks_fold) simp_all
  then have "task_group children = state_after children (fst ` set children)"
    by (simp add: task_group_def start)
  then show ?thesis
    by (simp add: state_after_def failed_by_all)
qed


lemma failures_filter:
  assumes "\<forall>x\<in>set xs. (P x \<longrightarrow> h x = Failed (g x)) \<and> (\<not> P x \<longrightarrow> (\<forall>e. h x \<noteq> Failed e))"
  shows "failures (map h xs) = map g (filter P xs)"
  using assms
proof (induction xs)
  case Nil
  then show ?case by simp
next
  case (Cons x xs)
  then have ih: "failures (map h xs) = map g (filter P xs)" by simp
  show ?case
  proof (cases "P x")
    case True
    with Cons.prems have "h x = Failed (g x)" by simp
    with True ih show ?thesis by simp
  next
    case False
    with Cons.prems have "\<forall>e. h x \<noteq> Failed e" by simp
    then have "failures (h x # map h xs) = failures (map h xs)" by (cases "h x") simp_all
    with False ih show ?thesis by simp
  qed
qed

lemma map_err_Done: "map_err task_result (map (\<lambda>c. Done (f c)) xs) = Inr (map f xs)"
  by (induction xs) simp_all

lemma no_failure_times: "failure_times children = [] \<longleftrightarrow> (\<forall>c\<in>set children. \<not> isl (snd c))"
  by (auto simp: failure_times_def filter_empty_conv)

lemma task_group_success:
  assumes "failure_times children = []"
  shows "task_group children = map (\<lambda>c. Done (projr (snd c))) children"
proof -
  have "settle (snd c) = Done (projr (snd c))" if "c \<in> set children" for c
  proof -
    from assms that have "\<not> isl (snd c)" by (simp add: no_failure_times)
    then show ?thesis by (cases "snd c") simp_all
  qed
  then show ?thesis using assms by (simp add: task_group_final)
qed

lemma exit_success:
  assumes "failure_times children = []"
  shows "task_group_exit (task_group children) = Inr (map (\<lambda>c. projr (snd c)) children)"
proof -
  have "failures (map (\<lambda>c. Done (projr (snd c))) children) = map undefined (filter (\<lambda>c. False) children)"
    by (rule failures_filter) simp
  then have "failures (task_group children) = []"
    by (simp add: task_group_success [OF assms])
  then show ?thesis
    by (simp add: task_group_exit_def task_group_success [OF assms] map_err_Done)
qed

lemma Min_failure_time:
  assumes "failure_times children \<noteq> []"
  shows "\<exists>c\<in>set children. isl (snd c) \<and> fst c = Min (set (failure_times children))"
    and "\<forall>c\<in>set children. isl (snd c) \<longrightarrow> Min (set (failure_times children)) \<le> fst c"
proof -
  have "Min (set (failure_times children)) \<in> set (failure_times children)"
    using assms by (intro Min_in) simp_all
  then show "\<exists>c\<in>set children. isl (snd c) \<and> fst c = Min (set (failure_times children))"
    by (auto simp: failure_times_def)
  show "\<forall>c\<in>set children. isl (snd c) \<longrightarrow> Min (set (failure_times children)) \<le> fst c"
    by (auto simp: failure_times_def intro!: Min_le)
qed

lemma failures_task_group:
  assumes "failure_times children \<noteq> []"
  shows "failures (task_group children) =
         map (\<lambda>c. projl (snd c))
           (filter (\<lambda>c. isl (snd c) \<and> fst c = Min (set (failure_times children))) children)"
proof -
  define m where "m = Min (set (failure_times children))"
  have tg: "task_group children =
      map (\<lambda>c. if fst c \<le> m then settle (snd c) else Cancelled) children"
    using assms by (simp add: task_group_final m_def)
  have "failures (map (\<lambda>c. if fst c \<le> m then settle (snd c) else Cancelled) children) =
      map (\<lambda>c. projl (snd c)) (filter (\<lambda>c. isl (snd c) \<and> fst c = m) children)"
  proof (rule failures_filter, intro ballI conjI impI)
    fix c assume "c \<in> set children" "isl (snd c) \<and> fst c = m"
    then show "(if fst c \<le> m then settle (snd c) else Cancelled) = Failed (projl (snd c))"
      by (cases "snd c") simp_all
  next
    fix c assume c: "c \<in> set children" and n: "\<not> (isl (snd c) \<and> fst c = m)"
    show "\<forall>e. (if fst c \<le> m then settle (snd c) else Cancelled) \<noteq> Failed e"
    proof (cases "snd c")
      case (Inl e)
      with c have "m \<le> fst c" using Min_failure_time(2) [OF assms] by (simp add: m_def)
      with n Inl have "\<not> fst c \<le> m" by auto
      then show ?thesis by simp
    next
      case (Inr v)
      then show ?thesis by simp
    qed
  qed
  then show ?thesis by (simp add: tg m_def)
qed

lemma failures_task_group_nonempty:
  assumes "failure_times children \<noteq> []"
  shows "failures (task_group children) \<noteq> []"
proof -
  from Min_failure_time(1) [OF assms] obtain c where
    "c \<in> set children" "isl (snd c) \<and> fst c = Min (set (failure_times children))" by blast
  then have "filter (\<lambda>c. isl (snd c) \<and> fst c = Min (set (failure_times children))) children \<noteq> []"
    by (auto simp: filter_empty_conv)
  then show ?thesis by (simp add: failures_task_group [OF assms])
qed

lemma exit_failure:
  assumes "failure_times children \<noteq> []"
  shows "task_group_exit (task_group children) =
         Inl (ExceptionGroup (failures (task_group children)))"
  using failures_task_group_nonempty [OF assms]
  by (cases "failures (task_group children)") (simp_all add: task_group_exit_def)



text \<open>The join returns the list \<open>vs\<close> exactly when the outcomes of the children, in
  input order, are the successes \<open>vs\<close>; the finishing times play no part.\<close>

lemma task_group_exit_Inr_iff:
  "task_group_exit (task_group children) = Inr vs \<longleftrightarrow> map snd children = map Inr vs"
proof
  assume ret: "task_group_exit (task_group children) = Inr vs"
  then have none: "failure_times children = []"
    using exit_failure [of children] by auto
  with ret have vs: "vs = map (\<lambda>c. projr (snd c)) children"
    by (simp add: exit_success)
  have "\<forall>c\<in>set children. Inr (projr (snd c)) = snd c"
    using none by (simp add: no_failure_times)
  then show "map snd children = map Inr vs"
    unfolding vs by (simp add: comp_def)
next
  assume outs: "map snd children = map Inr vs"
  have "\<forall>c\<in>set children. \<not> isl (snd c)"
  proof
    fix c assume "c \<in> set children"
    then have "snd c \<in> set (map snd children)" by simp
    then show "\<not> isl (snd c)" unfolding outs by auto
  qed
  then have none: "failure_times children = []" by (simp add: no_failure_times)
  have "map (\<lambda>c. projr (snd c)) children = map projr (map snd children)" by (simp add: comp_def)
  also have "\<dots> = vs" unfolding outs by (simp add: comp_def)
  finally show "task_group_exit (task_group children) = Inr vs"
    by (simp add: exit_success [OF none])
qed


lemma snd_children_of: "map snd (children_of out time n os) = outcomes_of out n os"
  by (simp add: children_of_def outcomes_of_def comp_def)


lemma run_all_result:
  "snd (exec (BleedingEdgeOrchestrator_run_all lib topics) out time n) =
     (if \<not> provides_TaskGroup lib then Raised (AttributeError ''TaskGroup'')
      else if topics \<noteq> [] \<and> \<not> child_accepts_timeout lib then Raised (ExceptionGroup [TypeError])
      else (case task_group_exit
                   (task_group (children_of out time n (map child_workflow (enumerate 1 topics)))) of
              Inl e \<Rightarrow> Raised e
            | Inr vs \<Rightarrow> Returned (PList vs)))"
proof -
  have e: "map child_workflow (enumerate 1 topics) = [] \<longleftrightarrow> topics = []"
    by (cases topics) (simp_all add: enumerate_eq_zip)
  show ?thesis
  proof (cases "provides_TaskGroup lib \<and> (topics = [] \<or> child_accepts_timeout lib)")
    case True
    then have "fan_out lib (map child_workflow (enumerate 1 topics)) k =
        TaskGroup (map child_workflow (enumerate 1 topics)) k" for k
      unfolding fan_out_def e by auto
    with True show ?thesis
      by (auto simp: BleedingEdgeOrchestrator_run_all_def split: sum.splits prod.splits)
  next
    case False
    then have "fan_out lib (map child_workflow (enumerate 1 topics)) k =
        (if \<not> provides_TaskGroup lib then Raise (AttributeError ''TaskGroup'')
         else Raise (ExceptionGroup [TypeError]))" for k
      unfolding fan_out_def e by auto
    with False show ?thesis
      by (auto simp: BleedingEdgeOrchestrator_run_all_def)
  qed
qed

text \<open>
  Claim C2.  The task group hands back the list \<open>vs\<close> exactly when the outcomes of
  the children, in the order of the input list, are the successes \<open>vs\<close>: the
  finishing times, and so the order in which the children complete, play no part.
  Accordingly \<^verbatim>\<open>BleedingEdgeOrchestrator.run_all\<close> returns a list exactly when the
  module provides what the body looks up and every child succeeds, and the list holds the
  results of the children in the order of the topics.
\<close>

theorem fan_out_results_in_input_order:
  "(task_group_exit (task_group children) = Inr vs \<longleftrightarrow> map snd children = map Inr vs) \<and>
   (snd (exec (BleedingEdgeOrchestrator_run_all lib topics) out time n) = Returned r \<longleftrightarrow>
      provides_TaskGroup lib \<and> (topics = [] \<or> child_accepts_timeout lib) \<and>
      (\<exists>rs. r = PList rs \<and>
            outcomes_of out n (map child_workflow (enumerate 1 topics)) = map Inr rs))"
proof
  show "task_group_exit (task_group children) = Inr vs \<longleftrightarrow> map snd children = map Inr vs"
    by (rule task_group_exit_Inr_iff)
next
  let ?ch = "children_of out time n (map child_workflow (enumerate 1 topics))"
  have ex: "task_group_exit (task_group ?ch) = Inr rs \<longleftrightarrow>
      outcomes_of out n (map child_workflow (enumerate 1 topics)) = map Inr rs" for rs
    by (simp add: task_group_exit_Inr_iff snd_children_of)
  show "snd (exec (BleedingEdgeOrchestrator_run_all lib topics) out time n) = Returned r \<longleftrightarrow>
      provides_TaskGroup lib \<and> (topics = [] \<or> child_accepts_timeout lib) \<and>
      (\<exists>rs. r = PList rs \<and>
            outcomes_of out n (map child_workflow (enumerate 1 topics)) = map Inr rs)"
    unfolding run_all_result ex [symmetric]
    by (auto split: sum.splits)
qed

text \<open>Three children that finish after 5, 1 and 3 seconds: they complete in the order
  child 1, child 2, child 0, and the join returns child 0, child 1, child 2.\<close>

theorem fan_out_results_in_input_order_witness:
  "sort (map fst children_513) = [1, 3, 5] \<and>
   task_group children_513 =
     [Done (PStr ''child0''), Done (PStr ''child1''), Done (PStr ''child2'')] \<and>
   task_group_exit (task_group children_513) =
     Inr [PStr ''child0'', PStr ''child1'', PStr ''child2'']"
proof -
  have "map snd children_513 = map Inr [PStr ''child0'', PStr ''child1'', PStr ''child2'']"
    by (simp add: children_513_def)
  with fan_out_results_in_input_order
    [of children_513 "[PStr ''child0'', PStr ''child1'', PStr ''child2'']"]
  have "task_group_exit (task_group children_513) =
     Inr [PStr ''child0'', PStr ''child1'', PStr ''child2'']"
    by blast
  moreover have "sort (map fst children_513) = [1, 3, 5]"
    by (simp add: children_513_def)
  moreover have "task_group children_513 =
     [Done (PStr ''child0''), Done (PStr ''child1''), Done (PStr ''child2'')]"
    by (simp add: task_group_success no_failure_times children_513_def)
  ultimately show ?thesis by blast
qed



section \<open>Workflow names and registrations\<close>

text \<open>
  Claim C7.  The name \<^verbatim>\<open>"BleedingEdgeOrchestrator.run_all"\<close> that the clients start
  on the task queue \<^verbatim>\<open>research-tasks\<close> is registered by no worker of the repository:
  the worker of that queue registers the class under the name
  \<^verbatim>\<open>BleedingEdgeOrchestrator\<close>.  Nor is there a worker for the task queue
  \<^verbatim>\<open>deep-research\<close> on which \<^verbatim>\<open>DeepResearchWorkflow\<close> is started.  The names
  of the demo and of the child workflows are registered.
\<close>

theorem orchestrator_name_not_registered:
  "resolve all_workers ''BleedingEdgeOrchestrator.run_all'' ''research-tasks'' = None \<and>
   resolve all_workers ''BleedingEdgeOrchestrator'' ''research-tasks'' = Some bleeding_edge_worker \<and>
   \<not> registered all_workers orchestrator_start \<and>
   \<not> registered all_workers deep_research_start \<and>
   registered all_workers demo_start \<and>
   registered all_workers child_start"
  by (simp add: resolve_def registered_def all_workers_def simple_worker_def
      bleeding_edge_worker_def temporal_worker_def orchestrator_start_def
      deep_research_start_def demo_start_def child_start_def)

section \<open>The retry schedule\<close>

lemma schedule_always_failing:
  assumes "0 < maximum_attempts p" "a \<le> maximum_attempts p" "0 < a"
    and "maximum_attempts p - a < k"
  shows "schedule p a (replicate k (Failure e True)) =
         map (\<lambda>n. Requeued (retry_delay p n)) [a ..< maximum_attempts p] @ [ActivityFailed e]"
  using assms
proof (induction "maximum_attempts p - a" arbitrary: a k)
  case 0
  then have a: "a = maximum_attempts p" by simp
  from 0 obtain k' where k: "k = Suc k'" by (cases k) auto
  show ?case unfolding k using a "0.prems"(1) by (simp add: may_retry_def)
next
  case (Suc d)
  then have lt: "a < maximum_attempts p" by simp
  from Suc obtain k' where k: "k = Suc k'" by (cases k) auto
  have "schedule p (Suc a) (replicate k' (Failure e True)) =
      map (\<lambda>n. Requeued (retry_delay p n)) [Suc a ..< maximum_attempts p] @ [ActivityFailed e]"
    using Suc.prems Suc.hyps(2) k by (intro Suc.hyps(1)) auto
  then show ?case
    unfolding k using lt by (simp add: may_retry_def upt_conv_Cons)
qed

text \<open>
  Claim C4.  The delay before the re-enqueue that follows the \<open>n\<close>-th retryable
  failure is \<open>min (initialInterval * backoffCoefficient ^ (n - 1)) maxInterval\<close>.  An
  activity that always fails, under a policy with a bound on the attempts, is re-enqueued
  with these delays for the attempts below the bound and fails for good at the bound.
  Under the policy of \<^verbatim>\<open>bleeding_edge_research_activity\<close> (1 s, coefficient 2, at
  most 15 s, 3 attempts) the delays are 1 s and 2 s, \<open>ActivityFailed\<close> follows the third
  attempt, and no further report is consumed.
\<close>

theorem retry_schedule:
  "(\<forall>n. 1 \<le> n \<longrightarrow>
      retry_delay p n =
        min (initial_interval p * backoff_coefficient p ^ (n - 1)) (maximum_interval p)) \<and>
   (0 < maximum_attempts p \<and> maximum_attempts p \<le> k \<longrightarrow>
      schedule p 1 (replicate k (Failure e True)) =
        map (\<lambda>n. Requeued (retry_delay p n)) [1 ..< maximum_attempts p] @ [ActivityFailed e]) \<and>
   (3 \<le> k \<longrightarrow>
      schedule research_retry_policy 1 (replicate k (Failure e True)) =
        [Requeued 1, Requeued 2, ActivityFailed e])"
proof (intro conjI allI impI)
  fix n :: nat
  show "retry_delay p n =
        min (initial_interval p * backoff_coefficient p ^ (n - 1)) (maximum_interval p)"
    by (simp add: retry_delay_def)
next
  assume "0 < maximum_attempts p \<and> maximum_attempts p \<le> k"
  then show "schedule p 1 (replicate k (Failure e True)) =
        map (\<lambda>n. Requeued (retry_delay p n)) [1 ..< maximum_attempts p] @ [ActivityFailed e]"
    by (intro schedule_always_failing) auto
next
  assume k: "3 \<le> k"
  have m: "maximum_attempts research_retry_policy = 3"
    by (simp add: research_retry_policy_def)
  have "schedule research_retry_policy 1 (replicate k (Failure e True)) =
      map (\<lambda>n. Requeued (retry_delay research_retry_policy n)) [1 ..< 3] @ [ActivityFailed e]"
    using schedule_always_failing [of research_retry_policy 1 k e] k m by simp
  also have "[1 ..< 3] = [1, 2::nat]" by (simp add: upt_conv_Cons)
  finally show "schedule research_retry_policy 1 (replicate k (Failure e True)) =
        [Requeued 1, Requeued 2, ActivityFailed e]"
    by (simp add: retry_delay_def research_retry_policy_def)
qed

theorem retry_schedule_witness:
  "retry_delay research_retry_policy 5 = 15 \<and>
   schedule research_retry_policy 1 (replicate 5 (Failure (ExternalError ''down'') True)) =
     [Requeued 1, Requeued 2, ActivityFailed (ExternalError ''down'')]"
proof -
  note r = retry_schedule [of research_retry_policy 5 "ExternalError ''down''"]
  from r have "retry_delay research_retry_policy 5 =
      min (initial_interval research_retry_policy * backoff_coefficient research_retry_policy ^ (5 - 1))
        (maximum_interval research_retry_policy)"
    by simp
  then have "retry_delay research_retry_policy 5 = 15"
    by (simp add: research_retry_policy_def)
  moreover from r have
    "schedule research_retry_policy 1 (replicate 5 (Failure (ExternalError ''down'') True)) =
     [Requeued 1, Requeued 2, ActivityFailed (ExternalError ''down'')]"
    by simp
  ultimately show ?thesis by blast
qed

subsection \<open>What the workflow bodies do outside the engine\<close>










end
